theory Spec2Isabelle
  imports Main "HOL-Library.Signed_Division"
begin

section \<open>The selection list of \<^verbatim>\<open>list.go\<close>: data\<close>

text \<open>
  Go's \<^verbatim>\<open>int\<close> is modelled as \<^typ>\<open>int\<close>. In the store and the selection the indices
  and lengths stay far from the ends of the 64-bit range. The viewport computes with the
  model's height, which any caller sets, so its arithmetic is written with the
  wrap-around of a 64-bit \<^verbatim>\<open>int\<close> (\<open>wrap64\<close> below). A run-time panic of the Go code is a
  value \<open>Inl p\<close> of the result, a normal return is \<open>Inr v\<close>.
\<close>

datatype panic = SliceBoundsOutOfRange | IndexOutOfRange | IntegerDivideByZero

text \<open>
  A Go slice is either \<^verbatim>\<open>nil\<close> or a sequence of elements. Capacity and the sharing
  of backing arrays are not modelled: every function below is read by the slice it
  returns.
\<close>

datatype 'a slice = NilSlice | Slice "'a list"

fun elems :: "'a slice \<Rightarrow> 'a list" where
  "elems NilSlice = []"
| "elems (Slice xs) = xs"

definition len :: "'a slice \<Rightarrow> int" where
  "len s = int (length (elems s))"

text \<open>
  An \<^verbatim>\<open>Item\<close> is an interface value: \<open>None\<close> is the \<^verbatim>\<open>nil\<close> interface, \<open>Some a\<close> an
  item of the embedding application.
\<close>

type_synonym 'a Item = "'a option"

subsection \<open>Go's slice operations, with their bounds checks\<close>

text \<open>\<^verbatim>\<open>append(s, x)\<close>: the result is never nil.\<close>

definition append_go :: "'a slice \<Rightarrow> 'a \<Rightarrow> 'a slice" where
  "append_go s x = Slice (elems s @ [x])"

text \<open>
  \<^verbatim>\<open>copy(s[d:], s[f:])\<close>, by what \<^verbatim>\<open>s\<close> holds afterwards. Each slice expression panics
  when its low bound is negative or beyond \<^verbatim>\<open>len(s)\<close>, the destination first; \<^verbatim>\<open>copy\<close>
  moves as many elements as the shorter of the two holds, reading the source as it was.
\<close>

definition copyWithin :: "'a slice \<Rightarrow> int \<Rightarrow> int \<Rightarrow> panic + 'a slice" where
  "copyWithin s d f =
     (if d < 0 \<or> len s < d then Inl SliceBoundsOutOfRange
      else if f < 0 \<or> len s < f then Inl SliceBoundsOutOfRange
      else (case s of
              NilSlice \<Rightarrow> Inr NilSlice
            | Slice xs \<Rightarrow>
                (let dst = drop (nat d) xs;
                     src = drop (nat f) xs;
                     n = min (length dst) (length src)
                 in Inr (Slice (take (nat d) xs @ take n src @ drop n dst)))))"

text \<open>\<^verbatim>\<open>s[i] = v\<close>: panics unless \<^verbatim>\<open>0 <= i < len(s)\<close>.\<close>

definition setIndex :: "'a slice \<Rightarrow> int \<Rightarrow> 'a \<Rightarrow> panic + 'a slice" where
  "setIndex s i v =
     (if i < 0 \<or> len s \<le> i then Inl IndexOutOfRange
      else Inr (Slice ((elems s)[nat i := v])))"

text \<open>\<^verbatim>\<open>s[i]\<close> read: panics unless \<^verbatim>\<open>0 <= i < len(s)\<close>.\<close>

definition getIndex :: "'a slice \<Rightarrow> int \<Rightarrow> panic + 'a" where
  "getIndex s i =
     (if i < 0 \<or> len s \<le> i then Inl IndexOutOfRange
      else Inr (elems s ! nat i))"

text \<open>
  \<^verbatim>\<open>s[:h]\<close>: panics when \<^verbatim>\<open>h\<close> is negative. The code only takes it with
  \<^verbatim>\<open>h = len(s) - 1\<close>, so the upper limit (the capacity) is never reached; beyond the
  length the model panics.
\<close>

definition sliceTo :: "'a slice \<Rightarrow> int \<Rightarrow> panic + 'a slice" where
  "sliceTo s h =
     (if h < 0 \<or> len s < h then Inl SliceBoundsOutOfRange
      else Inr (Slice (take (nat h) (elems s))))"

subsection \<open>The helpers at the end of \<^verbatim>\<open>list.go\<close>\<close>

definition max_go :: "int \<Rightarrow> int \<Rightarrow> int" where
  "max_go a b = (if a > b then a else b)"

definition min_go :: "int \<Rightarrow> int \<Rightarrow> int" where
  "min_go a b = (if a < b then a else b)"

definition setInBounds :: "int \<Rightarrow> int \<Rightarrow> int \<Rightarrow> int" where
  "setInBounds x low high = min_go high (max_go x low)"

text \<open>
  \<^verbatim>\<open>insertItemIntoSlice\<close>: a nil slice gives the one-item slice; an index at or beyond
  the length appends; otherwise the index is raised to 0, a nil item is appended, the
  suffix is copied one place to the right and the item is stored at the index.
\<close>

definition insertItemIntoSlice :: "'a Item slice \<Rightarrow> 'a Item \<Rightarrow> int \<Rightarrow> panic + 'a Item slice" where
  "insertItemIntoSlice its it idx =
     (if its = NilSlice then Inr (Slice [it])
      else if idx \<ge> len its then Inr (append_go its it)
      else (let idx' = max_go 0 idx;
                its1 = append_go its None
            in case copyWithin its1 (idx' + 1) idx' of
                 Inl e \<Rightarrow> Inl e
               | Inr its2 \<Rightarrow> setIndex its2 idx' it))"

text \<open>
  \<^verbatim>\<open>removeItemFromSlice\<close> and \<^verbatim>\<open>removeFilterMatchFromSlice\<close> are the same code at two
  element types; \<open>zero\<close> is the value written into the last place (\<^verbatim>\<open>nil\<close>, or the empty
  \<^verbatim>\<open>filteredItem{}\<close>). The only test before the slice expression \<^verbatim>\<open>i[index:]\<close> is
  \<^verbatim>\<open>index >= len(i)\<close>.
\<close>

definition removeFromSlice :: "'b \<Rightarrow> 'b slice \<Rightarrow> int \<Rightarrow> panic + 'b slice" where
  "removeFromSlice zero i idx =
     (if idx \<ge> len i then Inr i
      else (case copyWithin i idx (idx + 1) of
              Inl e \<Rightarrow> Inl e
            | Inr i1 \<Rightarrow>
                (case setIndex i1 (len i1 - 1) zero of
                   Inl e \<Rightarrow> Inl e
                 | Inr i2 \<Rightarrow> sliceTo i2 (len i2 - 1))))"

definition removeItemFromSlice :: "'a Item slice \<Rightarrow> int \<Rightarrow> panic + 'a Item slice" where
  "removeItemFromSlice i idx = removeFromSlice None i idx"

text \<open>
  \<^verbatim>\<open>swapItemsInSlice\<close>: nil is returned as it is; both indices are forced into
  \<^verbatim>\<open>[0, len - 1]\<close> and the two places are exchanged. On an empty slice that is not nil the
  forced index is \<open>-1\<close> and the index expression panics.
\<close>

definition swapItemsInSlice :: "'a Item slice \<Rightarrow> int \<Rightarrow> int \<Rightarrow> panic + 'a Item slice" where
  "swapItemsInSlice its firstIndex secondIndex =
     (case its of
        NilSlice \<Rightarrow> Inr NilSlice
      | Slice xs \<Rightarrow>
          (let maxIndex = len its - 1;
               f = setInBounds firstIndex 0 maxIndex;
               s = setInBounds secondIndex 0 maxIndex
           in case getIndex its s of
                Inl e \<Rightarrow> Inl e
              | Inr vs \<Rightarrow>
                  (case getIndex its f of
                     Inl e \<Rightarrow> Inl e
                   | Inr vf \<Rightarrow> Inr (Slice (xs[nat f := vs, nat s := vf])))))"

section \<open>The model\<close>

datatype FilterState = Unfiltered | Filtering | FilterApplied

record 'a filteredItem =
  item :: "'a Item"
  matches :: "int slice"

text \<open>
  \<^verbatim>\<open>FilterInput\<close> is a text input of the \<^verbatim>\<open>bubbles\<close> library. The list reads its value,
  resets it (the value becomes empty), focuses and blurs it, and hands every message to
  its \<^verbatim>\<open>Update\<close> while filtering.
\<close>

record textinput =
  tiValue :: string
  tiFocus :: bool

text \<open>
  The bindings of \<^verbatim>\<open>KeyMap\<close> that \<^verbatim>\<open>list.go\<close> names. The type itself is declared outside
  \<^verbatim>\<open>list.go\<close>; the list only enables and disables its bindings and asks
  \<^verbatim>\<open>key.Matches\<close> whether a key message belongs to one. A key map is modelled by the
  enabled flag of each binding, and a key message by the bindings whose key list holds
  the pressed key.
\<close>

datatype binding =
    CursorUpKey | CursorDownKey | MoveUpKey | MoveDownKey | GoToStartKey | GoToEndKey
  | FilterKey | ClearFilterKey | CancelWhileFilteringKey | AcceptWhileFilteringKey
  | ShowFullHelpKey | CloseFullHelpKey | QuitKey | ForceQuitKey

text \<open>
  The fields of \<^verbatim>\<open>Model\<close> that the functions below read or write. \<open>helpShowAll\<close> is
  \<^verbatim>\<open>Help.ShowAll\<close>; \<open>delegateHeight\<close> and \<open>delegateSpacing\<close> are what the delegate's
  \<^verbatim>\<open>Height()\<close> and \<^verbatim>\<open>Spacing()\<close> return; \<open>delegateFullHelp\<close> holds the enabled flags of
  the bindings of the delegate's \<^verbatim>\<open>FullHelp()\<close> (empty when the delegate is no
  \<^verbatim>\<open>help.KeyMap\<close>) and \<open>additionalFullHelpKeys\<close> those of \<^verbatim>\<open>AdditionalFullHelpKeys()\<close>
  (empty when the function is nil). Styles, title, width, spinner and the status timer
  are not read by any function modelled here.
\<close>

record 'a Model =
  showTitle :: bool
  showFilter :: bool
  showStatusBar :: bool
  showHelp :: bool
  filteringEnabled :: bool
  KeyMap :: "binding \<Rightarrow> bool"
  disableQuitKeybindings :: bool
  additionalFullHelpKeys :: "bool list"
  height :: int
  helpShowAll :: bool
  FilterInput :: textinput
  filterState :: FilterState
  statusMessage :: string
  items :: "'a Item slice"
  index :: int
  firstItemIndexInView :: int
  lastItemIndexInView :: int
  filteredItems :: "'a filteredItem slice"
  delegateHeight :: int
  delegateSpacing :: int
  delegateFullHelp :: "bool list list"

text \<open>The messages that \<^verbatim>\<open>Update\<close> tells apart; any other message is \<open>OtherMsg\<close>.\<close>

datatype 'a Msg =
    KeyMsg "binding list"
  | FilterMatchesMsg "'a filteredItem slice"
  | SpinnerTickMsg
  | StatusMessageTimeoutMsg
  | OtherMsg

text \<open>
  The two collaborators whose \<^verbatim>\<open>Update\<close> the list calls: the text input and the item
  delegate (which receives a pointer to the model and may change it).
\<close>

record 'a collaborators =
  inputUpdate :: "'a Msg \<Rightarrow> textinput \<Rightarrow> textinput"
  delegateUpdate :: "'a Msg \<Rightarrow> 'a Model \<Rightarrow> 'a Model"

text \<open>
  The heights of the rendered title, status bar and help view
  (\<^verbatim>\<open>lipgloss.Height\<close> of each), which the viewport subtracts from the model's height.
\<close>

record chrome =
  titleViewHeight :: int
  statusViewHeight :: int
  helpViewHeight :: int

subsection \<open>Items, selection\<close>

definition items_of :: "'a filteredItem slice \<Rightarrow> 'a Item slice" where
  "items_of f = Slice (map item (elems f))"

definition AvailableItems :: "'a Model \<Rightarrow> 'a Item slice" where
  "AvailableItems m =
     (if filterState m \<noteq> Unfiltered then items_of (filteredItems m) else items m)"

definition Index :: "'a Model \<Rightarrow> int" where
  "Index m = index m"

definition Select :: "'a Model \<Rightarrow> int \<Rightarrow> 'a Model" where
  "Select m idx =
     (let size = len (AvailableItems m)
      in if size = 0 then m\<lparr>index := -1\<rparr>
         else if idx < 0 then m\<lparr>index := 0\<rparr>
         else if idx > size - 1 then m\<lparr>index := size - 1\<rparr>
         else m\<lparr>index := idx\<rparr>)"

definition ResetSelected :: "'a Model \<Rightarrow> 'a Model" where
  "ResetSelected m = Select m 0"

definition CursorUp :: "'a Model \<Rightarrow> 'a Model" where
  "CursorUp m = Select m (index m - 1)"

definition CursorDown :: "'a Model \<Rightarrow> 'a Model" where
  "CursorDown m = Select m (index m + 1)"

text \<open>
  \<^verbatim>\<open>SelectedItem\<close>: the guard comes first, the index expression \<^verbatim>\<open>items[i]\<close> after it.
\<close>

definition SelectedItem :: "'a Model \<Rightarrow> panic + 'a Item" where
  "SelectedItem m =
     (let i = Index m;
          its = AvailableItems m
      in if i < 0 \<or> len its = 0 \<or> len its \<le> i then Inr None
         else getIndex its i)"

subsection \<open>Key bindings\<close>

definition keyMatches :: "'a Model \<Rightarrow> binding list \<Rightarrow> binding \<Rightarrow> bool" where
  "keyMatches m ks b = (b \<in> set ks \<and> KeyMap m b)"

definition countEnabledBindings :: "bool list list \<Rightarrow> int" where
  "countEnabledBindings groups = int (length (filter (\<lambda>e. e) (concat groups)))"

definition FullHelp :: "'a Model \<Rightarrow> bool list list" where
  "FullHelp m =
     (let kb = [map (KeyMap m)
                  [CursorUpKey, CursorDownKey, MoveUpKey, MoveDownKey, GoToStartKey, GoToEndKey]];
          filtering = (filterState m = Filtering);
          kb1 = (if \<not> filtering then kb @ delegateFullHelp m else kb);
          listLevelBindings = map (KeyMap m)
                  [FilterKey, ClearFilterKey, AcceptWhileFilteringKey, CancelWhileFilteringKey];
          listLevelBindings1 =
            (if \<not> filtering then listLevelBindings @ additionalFullHelpKeys m
             else listLevelBindings)
      in kb1 @ [listLevelBindings1, map (KeyMap m) [QuitKey, CloseFullHelpKey]])"

definition updateKeybindings :: "'a Model \<Rightarrow> 'a Model" where
  "updateKeybindings m =
     (if filterState m = Filtering then
        m\<lparr>KeyMap := (KeyMap m)
            (MoveUpKey := False, MoveDownKey := False, CursorUpKey := False,
             CursorDownKey := False, GoToStartKey := False, GoToEndKey := False,
             FilterKey := False, ClearFilterKey := False, CancelWhileFilteringKey := True,
             AcceptWhileFilteringKey := (tiValue (FilterInput m) \<noteq> []),
             QuitKey := False, ShowFullHelpKey := False, CloseFullHelpKey := False)\<rparr>
      else
        (let hasItems = (len (items m) \<noteq> 0);
             m1 = m\<lparr>KeyMap := (KeyMap m)
                    (MoveUpKey := hasItems, MoveDownKey := hasItems, CursorUpKey := hasItems,
                     CursorDownKey := hasItems, GoToStartKey := hasItems, GoToEndKey := hasItems,
                     FilterKey := (filteringEnabled m \<and> hasItems),
                     ClearFilterKey := (filterState m = FilterApplied),
                     CancelWhileFilteringKey := False, AcceptWhileFilteringKey := False,
                     QuitKey := (\<not> disableQuitKeybindings m))\<rparr>
         in if helpShowAll m1 then
              m1\<lparr>KeyMap := (KeyMap m1)(ShowFullHelpKey := True, CloseFullHelpKey := True)\<rparr>
            else
              (let minHelp = (countEnabledBindings (FullHelp m1) > 1)
               in m1\<lparr>KeyMap := (KeyMap m1)
                       (ShowFullHelpKey := minHelp, CloseFullHelpKey := minHelp)\<rparr>)))"

subsection \<open>Construction\<close>

text \<open>
  \<^verbatim>\<open>New\<close>, for the fields of the model: \<open>keymap\<close> is what \<^verbatim>\<open>DefaultKeyMap()\<close> returns,
  \<open>dh\<close>, \<open>ds\<close> and \<open>dhelp\<close> describe the delegate. The filter input starts empty and
  focused, the filter state is the zero value \<^verbatim>\<open>Unfiltered\<close>, both viewport bounds are 0.
\<close>

definition New :: "(binding \<Rightarrow> bool) \<Rightarrow> int \<Rightarrow> int \<Rightarrow> bool list list \<Rightarrow> 'a Item slice \<Rightarrow> int \<Rightarrow> 'a Model" where
  "New keymap dh ds dhelp its h =
     updateKeybindings
       \<lparr>showTitle = True, showFilter = True, showStatusBar = True, showHelp = True,
        filteringEnabled = True, KeyMap = keymap, disableQuitKeybindings = False,
        additionalFullHelpKeys = [], height = h, helpShowAll = False,
        FilterInput = \<lparr>tiValue = [], tiFocus = True\<rparr>, filterState = Unfiltered,
        statusMessage = [], items = its,
        index = (if len its > 0 then 0 else -1),
        firstItemIndexInView = 0, lastItemIndexInView = 0, filteredItems = NilSlice,
        delegateHeight = dh, delegateSpacing = ds, delegateFullHelp = dhelp\<rparr>"

subsection \<open>Filtering state\<close>

definition resetFiltering :: "'a Model \<Rightarrow> 'a Model" where
  "resetFiltering m =
     (if filterState m = Unfiltered then m
      else updateKeybindings
             (m\<lparr>filterState := Unfiltered,
                FilterInput := (FilterInput m)\<lparr>tiValue := []\<rparr>,
                filteredItems := NilSlice\<rparr>))"

definition itemsAsFilterItems :: "'a Model \<Rightarrow> 'a filteredItem slice" where
  "itemsAsFilterItems m = Slice (map (\<lambda>it. \<lparr>item = it, matches = NilSlice\<rparr>) (elems (items m)))"

definition hideStatusMessage :: "'a Model \<Rightarrow> 'a Model" where
  "hideStatusMessage m = m\<lparr>statusMessage := []\<rparr>"

subsection \<open>Mutating the master sequence\<close>

text \<open>
  The commands these methods return (a deferred ranking request when a filter is
  active) are not part of the model's state and are left out.
\<close>

definition InsertItem :: "'a Model \<Rightarrow> int \<Rightarrow> 'a Item \<Rightarrow> panic + 'a Model" where
  "InsertItem m idx it =
     (case insertItemIntoSlice (items m) it idx of
        Inl e \<Rightarrow> Inl e
      | Inr its \<Rightarrow> Inr (updateKeybindings (m\<lparr>items := its\<rparr>)))"

definition removeFilterMatchFromSlice :: "'a filteredItem slice \<Rightarrow> int \<Rightarrow> panic + 'a filteredItem slice" where
  "removeFilterMatchFromSlice i idx = removeFromSlice \<lparr>item = None, matches = NilSlice\<rparr> i idx"

definition RemoveItem :: "'a Model \<Rightarrow> int \<Rightarrow> panic + 'a Model" where
  "RemoveItem m idx =
     (case removeItemFromSlice (items m) idx of
        Inl e \<Rightarrow> Inl e
      | Inr its \<Rightarrow>
          (let m1 = m\<lparr>items := its\<rparr>
           in if filterState m1 \<noteq> Unfiltered then
                (case removeFilterMatchFromSlice (filteredItems m1) idx of
                   Inl e \<Rightarrow> Inl e
                 | Inr fs \<Rightarrow>
                     (let m2 = m1\<lparr>filteredItems := fs\<rparr>
                      in if len (filteredItems m2) = 0 then Inr (resetFiltering m2)
                         else Inr m2))
              else Inr m1))"

definition MoveItemUp :: "'a Model \<Rightarrow> int \<Rightarrow> panic + 'a Model" where
  "MoveItemUp m idx =
     (if filterState m = Unfiltered then
        (case swapItemsInSlice (items m) idx (idx - 1) of
           Inl e \<Rightarrow> Inl e
         | Inr its \<Rightarrow> Inr (CursorUp (m\<lparr>items := its\<rparr>)))
      else Inr m)"

definition MoveItemDown :: "'a Model \<Rightarrow> int \<Rightarrow> panic + 'a Model" where
  "MoveItemDown m idx =
     (if filterState m = Unfiltered then
        (case swapItemsInSlice (items m) idx (idx + 1) of
           Inl e \<Rightarrow> Inl e
         | Inr its \<Rightarrow> Inr (CursorDown (m\<lparr>items := its\<rparr>)))
      else Inr m)"

text \<open>
  The round trip on a sequence: remove at an index, then insert an item at the same
  index. It fails where the removal panics.
\<close>

definition removeThenInsert :: "'a Item slice \<Rightarrow> int \<Rightarrow> 'a Item \<Rightarrow> panic + 'a Item slice" where
  "removeThenInsert its idx it =
     (case removeItemFromSlice its idx of
        Inl e \<Rightarrow> Inl e
      | Inr its1 \<Rightarrow> insertItemIntoSlice its1 it idx)"

text \<open>
  What the comment on the field \<^verbatim>\<open>index\<close> asks of a state: the index points into
  \<^verbatim>\<open>AvailableItems()\<close>, and it is \<open>-1\<close> exactly when there are none.
\<close>

definition selectionInRange :: "'a Model \<Rightarrow> bool" where
  "selectionInRange m =
     (-1 \<le> index m \<and> index m \<le> len (AvailableItems m) - 1 \<and>
      ((index m = -1) = (len (AvailableItems m) = 0)))"

subsection \<open>The viewport\<close>

text \<open>
  The value that a 64-bit \<^verbatim>\<open>int\<close> holds after an addition, a subtraction or a division
  whose exact result is \<open>x\<close>: it is \<open>x\<close> inside \<open>-2^63 \<dots> 2^63 - 1\<close> and wraps around
  outside (the quotient of the most negative value by \<open>-1\<close> is that value again).
  \<open>goInt\<close> says that a number is a value of the type.
\<close>

definition wrap64 :: "int \<Rightarrow> int" where
  "wrap64 x = (x + 2 ^ 63) mod 2 ^ 64 - 2 ^ 63"

definition goInt :: "int \<Rightarrow> bool" where
  "goInt x = (- (2 ^ 63) \<le> x \<and> x < 2 ^ 63)"

text \<open>\<^verbatim>\<open>itemHeight := m.delegate.Height() + m.delegate.Spacing()\<close>.\<close>

definition itemHeight :: "'a Model \<Rightarrow> int" where
  "itemHeight m = wrap64 (delegateHeight m + delegateSpacing m)"

text \<open>
  The number of items that fit (\<^verbatim>\<open>availSpace\<close> in the source). Go's division truncates
  towards zero and panics on a zero divisor.
\<close>

definition availSpace :: "chrome \<Rightarrow> 'a Model \<Rightarrow> panic + int" where
  "availSpace c m =
     (let availHeight = height m;
          availHeight1 = (if showTitle m \<or> (showFilter m \<and> filteringEnabled m)
                          then wrap64 (availHeight - titleViewHeight c) else availHeight);
          availHeight2 = (if showStatusBar m then wrap64 (availHeight1 - statusViewHeight c)
                          else availHeight1);
          availHeight3 = (if showHelp m then wrap64 (availHeight2 - helpViewHeight c)
                          else availHeight2)
      in if itemHeight m = 0 then Inl IntegerDivideByZero
         else Inr (max_go 1 (wrap64 (availHeight3 sdiv itemHeight m))))"

definition updateViewportBounds :: "chrome \<Rightarrow> 'a Model \<Rightarrow> panic + 'a Model" where
  "updateViewportBounds c m =
     (let idx = Index m
      in if idx < 0 then Inr (m\<lparr>firstItemIndexInView := 0, lastItemIndexInView := 0\<rparr>)
         else
           (case availSpace c m of
              Inl e \<Rightarrow> Inl e
            | Inr space \<Rightarrow>
                (let requiredSpace = len (AvailableItems m);
                     currentFirst = firstItemIndexInView m;
                     currentLast =
                       wrap64 (min_go requiredSpace (wrap64 (currentFirst + space)) - 1)
                 in if currentFirst \<le> idx \<and> idx \<le> currentLast then
                      Inr (m\<lparr>lastItemIndexInView := currentLast\<rparr>)
                    else if currentLast < idx then
                      Inr (m\<lparr>firstItemIndexInView :=
                               max_go 0 (wrap64 (wrap64 (idx - space) + 1)),
                             lastItemIndexInView := idx\<rparr>)
                    else if currentFirst > idx then
                      Inr (m\<lparr>firstItemIndexInView := idx,
                             lastItemIndexInView :=
                               wrap64 (wrap64 (idx + min_go requiredSpace space) - 1)\<rparr>)
                    else Inr m)))"

subsection \<open>The update loop\<close>

text \<open>
  As for the mutating methods, the returned commands are left out: each handler is
  read by the model it leaves behind. An early \<^verbatim>\<open>return\<close> of a handler skips the
  delegate's update, as in the source.
\<close>

definition handleMoving :: "'a collaborators \<Rightarrow> 'a Model \<Rightarrow> 'a Msg \<Rightarrow> panic + 'a Model" where
  "handleMoving ext m msg =
     (case msg of
        KeyMsg ks \<Rightarrow>
          (if keyMatches m ks MoveUpKey then
             (case MoveItemUp m (Index m) of
                Inl e \<Rightarrow> Inl e
              | Inr m1 \<Rightarrow> Inr (delegateUpdate ext msg m1))
           else if keyMatches m ks MoveDownKey then
             (case MoveItemDown m (Index m) of
                Inl e \<Rightarrow> Inl e
              | Inr m1 \<Rightarrow> Inr (delegateUpdate ext msg m1))
           else Inr (delegateUpdate ext msg m))
      | _ \<Rightarrow> Inr (delegateUpdate ext msg m))"

definition handleBrowsing :: "'a collaborators \<Rightarrow> 'a Model \<Rightarrow> 'a Msg \<Rightarrow> 'a Model" where
  "handleBrowsing ext m msg =
     (case msg of
        KeyMsg ks \<Rightarrow>
          (if keyMatches m ks ClearFilterKey then delegateUpdate ext msg (resetFiltering m)
           else if keyMatches m ks QuitKey then m
           else if keyMatches m ks CursorUpKey then delegateUpdate ext msg (CursorUp m)
           else if keyMatches m ks CursorDownKey then delegateUpdate ext msg (CursorDown m)
           else if keyMatches m ks GoToStartKey then delegateUpdate ext msg (ResetSelected m)
           else if keyMatches m ks GoToEndKey then
             delegateUpdate ext msg (Select m (len (items m)))
           else if keyMatches m ks FilterKey then
             (let m1 = hideStatusMessage m;
                  m2 = (if tiValue (FilterInput m1) = []
                        then m1\<lparr>filteredItems := itemsAsFilterItems m1\<rparr> else m1);
                  m3 = ResetSelected m2;
                  m4 = m3\<lparr>filterState := Filtering,
                          FilterInput := (FilterInput m3)\<lparr>tiFocus := True\<rparr>\<rparr>
              in updateKeybindings m4)
           else if keyMatches m ks ShowFullHelpKey \<or> keyMatches m ks CloseFullHelpKey then
             delegateUpdate ext msg (m\<lparr>helpShowAll := \<not> helpShowAll m\<rparr>)
           else delegateUpdate ext msg m)
      | _ \<Rightarrow> delegateUpdate ext msg m)"

definition handleFiltering :: "'a collaborators \<Rightarrow> 'a Model \<Rightarrow> 'a Msg \<Rightarrow> 'a Model" where
  "handleFiltering ext m msg =
     (let m1 =
            (case msg of
               KeyMsg ks \<Rightarrow>
                 (if keyMatches m ks CancelWhileFilteringKey then
                    (let r = resetFiltering m
                     in r\<lparr>KeyMap := (KeyMap r)(FilterKey := True, ClearFilterKey := False)\<rparr>)
                  else if keyMatches m ks AcceptWhileFilteringKey then
                    (let h0 = hideStatusMessage m
                     in if len (items h0) = 0 then h0
                        else if len (AvailableItems h0) = 0 then resetFiltering h0
                        else
                          (let a = updateKeybindings
                                     (h0\<lparr>FilterInput := (FilterInput h0)\<lparr>tiFocus := False\<rparr>,
                                         filterState := FilterApplied\<rparr>)
                           in if tiValue (FilterInput a) = [] then resetFiltering a else a))
                  else m)
             | _ \<Rightarrow> m);
          newFilterInputModel = inputUpdate ext msg (FilterInput m1);
          filterChanged = (tiValue (FilterInput m1) \<noteq> tiValue newFilterInputModel);
          m2 = m1\<lparr>FilterInput := newFilterInputModel\<rparr>
      in if filterChanged then
           m2\<lparr>KeyMap := (KeyMap m2)
                 (AcceptWhileFilteringKey := (tiValue (FilterInput m2) \<noteq> []))\<rparr>
         else m2)"

definition Update :: "'a collaborators \<Rightarrow> 'a Model \<Rightarrow> 'a Msg \<Rightarrow> panic + 'a Model" where
  "Update ext m msg =
     (let dispatch = (\<lambda>m1.
            if filterState m1 = Filtering then Inr (handleFiltering ext m1 msg)
            else handleMoving ext (handleBrowsing ext m1 msg) msg)
      in case msg of
           KeyMsg ks \<Rightarrow> if keyMatches m ks ForceQuitKey then Inr m else dispatch m
         | FilterMatchesMsg fs \<Rightarrow> Inr (m\<lparr>filteredItems := fs\<rparr>)
         | SpinnerTickMsg \<Rightarrow> dispatch m
         | StatusMessageTimeoutMsg \<Rightarrow> dispatch (hideStatusMessage m)
         | OtherMsg \<Rightarrow> dispatch m)"

subsection \<open>Sample states\<close>

text \<open>
  Concrete states for the evaluations below: a terminal whose title, status bar and help
  take two lines each, the default delegate (height 1, spacing 1), every binding of the
  key map enabled before \<^verbatim>\<open>New\<close> adjusts it, and items that are strings. \<open>sampleView\<close>
  is a freshly made model with a selection and a previous window; \<open>sampleFlat\<close> is a
  freshly made model whose delegate has height 0 and spacing 0; \<open>sampleFiltering\<close> is
  a model in the \<^verbatim>\<open>Filtering\<close> state with a filtered sequence and a query, every binding
  enabled; the sample collaborators leave the text input and the model as they are.
\<close>

definition sampleChrome :: chrome where
  "sampleChrome = \<lparr>titleViewHeight = 2, statusViewHeight = 2, helpViewHeight = 2\<rparr>"

definition sampleModel :: "string Item slice \<Rightarrow> int \<Rightarrow> string Model" where
  "sampleModel its h = New (\<lambda>b. True) 1 1 [] its h"

definition sampleView :: "string Item slice \<Rightarrow> int \<Rightarrow> int \<Rightarrow> int \<Rightarrow> string Model" where
  "sampleView its h i f =
     (sampleModel its h)\<lparr>index := i, firstItemIndexInView := f, lastItemIndexInView := f\<rparr>"


definition sampleFiltering :: "string Item slice \<Rightarrow> string filteredItem slice \<Rightarrow> string \<Rightarrow> string Model" where
  "sampleFiltering its fs q =
     (sampleModel its 10)\<lparr>KeyMap := (\<lambda>b. True), filterState := Filtering, filteredItems := fs,
                          FilterInput := \<lparr>tiValue = q, tiFocus = True\<rparr>\<rparr>"

definition sampleCollaborators :: "string collaborators" where
  "sampleCollaborators = \<lparr>inputUpdate = (\<lambda>msg ti. ti), delegateUpdate = (\<lambda>msg m. m)\<rparr>"

section \<open>The item store\<close>

lemma len_Slice: "len (Slice xs) = int (length xs)"
  by (simp add: len_def)

lemma len_nonneg: "0 \<le> len s"
  by (simp add: len_def)

lemma copyWithin_left:
  assumes "k < length xs"
  shows "copyWithin (Slice xs) (int k) (int k + 1) =
           Inr (Slice (take k xs @ drop (Suc k) xs @ drop (length xs - Suc k) (drop k xs)))"
proof -
  have n1: "nat (int k + 1) = Suc k" by simp
  from assms have m: "min (length xs - k) (length xs - Suc k) = length xs - Suc k" by simp
  from assms have b1: "\<not> (int k < 0 \<or> int (length xs) < int k)" by simp
  from assms have b2: "\<not> (int k + 1 < 0 \<or> int (length xs) < int k + 1)" by simp
  show ?thesis
    unfolding copyWithin_def len_Slice Let_def
    by (simp only: b1 b2 if_False slice.case n1 m nat_int) simp
qed

lemma copyWithin_right:
  assumes "k \<le> length xs"
  shows "copyWithin (Slice (xs @ [z])) (int k + 1) (int k) =
           Inr (Slice (take (Suc k) (xs @ [z]) @ drop k xs))"
proof -
  have n1: "nat (int k + 1) = Suc k" by simp
  from assms have m: "min (length (xs @ [z]) - Suc k) (length (xs @ [z]) - k) = length xs - k" by simp
  from assms have b1: "\<not> (int k < 0 \<or> int (length (xs @ [z])) < int k)" by simp
  from assms have b2: "\<not> (int k + 1 < 0 \<or> int (length (xs @ [z])) < int k + 1)" by simp
  from assms have t: "take (length xs - k) (drop k (xs @ [z])) = drop k xs" by simp
  from assms have d: "drop (length xs - k) (drop (Suc k) (xs @ [z])) = []" by simp
  show ?thesis
    unfolding copyWithin_def len_Slice Let_def
    by (simp only: b1 b2 if_False slice.case n1 m nat_int length_drop t d) simp
qed

lemma setIndex_Slice:
  "k < length ys \<Longrightarrow> setIndex (Slice ys) (int k) v = Inr (Slice (ys[k := v]))"
  by (simp add: setIndex_def len_Slice)

lemma sliceTo_Slice:
  "k \<le> length ys \<Longrightarrow> sliceTo (Slice ys) (int k) = Inr (Slice (take k ys))"
  by (simp add: sliceTo_def len_Slice)

lemma insert_shift:
  assumes "k \<le> length xs"
  shows "(take (Suc k) (xs @ [z]) @ drop k xs)[k := v] = take k xs @ v # drop k xs"
proof -
  from assms have "k < length (xs @ [z])"
    by simp
  then have "take (Suc k) (xs @ [z]) = take k (xs @ [z]) @ [(xs @ [z]) ! k]"
    by (rule take_Suc_conv_app_nth)
  moreover from assms have "take k (xs @ [z]) = take k xs"
    by simp
  ultimately have a: "take (Suc k) (xs @ [z]) = take k xs @ [(xs @ [z]) ! k]"
    by simp
  from assms have d: "length (take k xs) = k"
    by simp
  have h: "(take k xs @ ((xs @ [z]) ! k) # drop k xs)[k := v] = take k xs @ v # drop k xs"
    using d by (metis list_update_length)
  have "(take k xs @ [(xs @ [z]) ! k]) @ drop k xs = take k xs @ ((xs @ [z]) ! k) # drop k xs"
    by simp
  with a h show ?thesis
    by (simp only:)
qed

lemma insertItemIntoSlice_result:
  "insertItemIntoSlice its it idx =
     Inr (Slice (if idx < 0 then it # elems its
                 else if len its \<le> idx then elems its @ [it]
                 else take (nat idx) (elems its) @ it # drop (nat idx) (elems its)))"
proof (cases its)
  case NilSlice
  then show ?thesis
    by (simp add: insertItemIntoSlice_def len_def)
next
  case (Slice xs)
  show ?thesis
  proof (cases "len its \<le> idx")
    case True
    then have "\<not> idx < 0"
      using len_nonneg [of its] by simp
    with True Slice show ?thesis
      by (simp add: insertItemIntoSlice_def append_go_def)
  next
    case False
    define k where "k = nat (max_go 0 idx)"
    from False Slice have k: "k \<le> length xs"
      by (auto simp: k_def max_go_def len_def)
    have kk: "max_go 0 idx = int k"
      by (simp add: k_def max_go_def)
    let ?ys = "take (Suc k) (xs @ [None]) @ drop k xs"
    from k have cw: "copyWithin (Slice (xs @ [None])) (int k + 1) (int k) = Inr (Slice ?ys)"
      by (rule copyWithin_right)
    from k have "k < length ?ys"
      by simp
    then have "setIndex (Slice ?ys) (int k) it = Inr (Slice (?ys[k := it]))"
      by (rule setIndex_Slice)
    with k have si: "setIndex (Slice ?ys) (int k) it = Inr (Slice (take k xs @ it # drop k xs))"
      by (simp only: insert_shift)
    have "insertItemIntoSlice its it idx =
            (case copyWithin (Slice (xs @ [None])) (int k + 1) (int k) of
               Inl e \<Rightarrow> Inl e
             | Inr its2 \<Rightarrow> setIndex its2 (int k) it)"
      using False Slice
      by (simp add: insertItemIntoSlice_def append_go_def Let_def kk)
    then have res: "insertItemIntoSlice its it idx = Inr (Slice (take k xs @ it # drop k xs))"
      by (simp only: cw si sum.case)
    show ?thesis
    proof (cases "idx < 0")
      case True
      then have "k = 0" by (simp add: k_def max_go_def)
      with res True Slice show ?thesis by simp
    next
      case nonneg: False
      then have "k = nat idx" by (simp add: k_def max_go_def)
      with res nonneg False Slice show ?thesis by simp
    qed
  qed
qed

lemma remove_shift:
  assumes "k < length xs"
  shows "take (length xs - Suc 0)
           ((take k xs @ drop (Suc k) xs @ drop (length xs - Suc k) (drop k xs))[length xs - Suc 0 := z])
         = take k xs @ drop (Suc k) xs"
proof -
  from assms have l: "length (take k xs @ drop (Suc k) xs) = length xs - Suc 0"
    by simp
  have "take (length xs - Suc 0) ((take k xs @ drop (Suc k) xs) @ drop (length xs - Suc k) (drop k xs))
        = take k xs @ drop (Suc k) xs"
    using l by (metis append_eq_conv_conj)
  then show ?thesis
    by simp
qed

lemma removeFromSlice_valid:
  assumes "0 \<le> idx" and "idx < len i"
  shows "removeFromSlice zero i idx =
           Inr (Slice (take (nat idx) (elems i) @ drop (Suc (nat idx)) (elems i)))"
proof (cases i)
  case NilSlice
  with assms show ?thesis
    by (simp add: len_def)
next
  case (Slice xs)
  define k where "k = nat idx"
  define n where "n = length xs - Suc 0"
  from assms Slice have k: "k < length xs"
    by (simp add: k_def len_def)
  from assms have ik: "idx = int k"
    by (simp add: k_def)
  from k have n: "int (length xs) - 1 = int n"
    by (simp add: n_def)
  let ?ys = "take k xs @ drop (Suc k) xs @ drop (length xs - Suc k) (drop k xs)"
  from k have cw: "copyWithin (Slice xs) (int k) (int k + 1) = Inr (Slice ?ys)"
    by (rule copyWithin_left)
  from k have ly: "length ?ys = length xs"
    by simp
  with k have "n < length ?ys"
    by (simp add: n_def)
  then have si: "setIndex (Slice ?ys) (int n) zero = Inr (Slice (?ys[n := zero]))"
    by (rule setIndex_Slice)
  from ly have "n \<le> length (?ys[n := zero])"
    by (simp add: n_def)
  then have "sliceTo (Slice (?ys[n := zero])) (int n) = Inr (Slice (take n (?ys[n := zero])))"
    by (rule sliceTo_Slice)
  with k have st: "sliceTo (Slice (?ys[n := zero])) (int n) = Inr (Slice (take k xs @ drop (Suc k) xs))"
    by (simp only: n_def remove_shift)
  have l1: "len (Slice ?ys) - 1 = int n"
    using ly n by (simp only: len_Slice)
  have l2: "len (Slice (?ys[n := zero])) - 1 = int n"
    using ly n by (simp only: len_Slice length_list_update)
  from k have "\<not> int k \<ge> len (Slice xs)"
    by (simp add: len_Slice)
  then have "removeFromSlice zero (Slice xs) (int k) = Inr (Slice (take k xs @ drop (Suc k) xs))"
    unfolding removeFromSlice_def
    by (simp only: if_False cw sum.case l1 si l2 st)
  with Slice ik show ?thesis
    by (simp add: k_def)
qed

lemma removeFromSlice_beyond:
  "len i \<le> idx \<Longrightarrow> removeFromSlice zero i idx = Inr i"
  by (simp add: removeFromSlice_def)

lemma removeFromSlice_negative:
  "idx < 0 \<Longrightarrow> removeFromSlice zero i idx = Inl SliceBoundsOutOfRange"
  using len_nonneg [of i] by (simp add: removeFromSlice_def copyWithin_def)

lemma updateKeybindings_KeyMap:
  "updateKeybindings m = m\<lparr>KeyMap := KeyMap (updateKeybindings m)\<rparr>"
  by (simp add: updateKeybindings_def Let_def)

lemma updateKeybindings_fields:
  "items (updateKeybindings m) = items m"
  "index (updateKeybindings m) = index m"
  "filterState (updateKeybindings m) = filterState m"
  "filteredItems (updateKeybindings m) = filteredItems m"
  "FilterInput (updateKeybindings m) = FilterInput m"
  "firstItemIndexInView (updateKeybindings m) = firstItemIndexInView m"
  "lastItemIndexInView (updateKeybindings m) = lastItemIndexInView m"
  "statusMessage (updateKeybindings m) = statusMessage m"
  by (simp_all add: updateKeybindings_def Let_def)

lemma AvailableItems_updateKeybindings:
  "AvailableItems (updateKeybindings m) = AvailableItems m"
  by (simp add: AvailableItems_def updateKeybindings_fields)

text \<open>
  Claim C6. \<^verbatim>\<open>Select\<close> changes the selected index only: it becomes \<open>-1\<close> when the
  available sequence is empty; otherwise 0 for a negative argument, \<open>size - 1\<close> for an
  argument at or beyond the size, and the argument itself in between. \<^verbatim>\<open>CursorUp\<close> and
  \<^verbatim>\<open>CursorDown\<close> are \<^verbatim>\<open>Select\<close> of the current index minus and plus one, and
  \<^verbatim>\<open>ResetSelected\<close> is \<^verbatim>\<open>Select(0)\<close>.
\<close>

theorem C6_Select_clamps:
  "Select m idx =
     m\<lparr>index := (if len (AvailableItems m) = 0 then -1
                 else if idx < 0 then 0
                 else if idx \<ge> len (AvailableItems m) then len (AvailableItems m) - 1
                 else idx)\<rparr>
   \<and> CursorUp m = Select m (index m - 1)
   \<and> CursorDown m = Select m (index m + 1)
   \<and> ResetSelected m = Select m 0"
  by (simp add: Select_def CursorUp_def CursorDown_def ResetSelected_def Let_def)

text \<open>
  Claim C10. \<^verbatim>\<open>SelectedItem\<close> never panics: it returns nil when the selected index is
  negative, when the available sequence is empty, or when the index is at or beyond
  its length (an index that a mutation left behind), and otherwise the available item
  at the selected index.
\<close>

theorem C10_SelectedItem_guarded:
  "SelectedItem m =
     Inr (if index m < 0 \<or> len (AvailableItems m) = 0 \<or> len (AvailableItems m) \<le> index m
          then None
          else elems (AvailableItems m) ! nat (index m))"
  by (simp add: SelectedItem_def Index_def getIndex_def Let_def)

text \<open>
  Claim C5. In every model state, whatever the filter state and the query,
  \<^verbatim>\<open>Update\<close> of a \<^verbatim>\<open>FilterMatchesMsg\<close> returns the model with the filtered sequence
  replaced by the delivered list, and nothing else changed.
\<close>

theorem C5_Update_FilterMatchesMsg:
  "Update ext m (FilterMatchesMsg fs) = Inr (m\<lparr>filteredItems := fs\<rparr>)"
  by (simp add: Update_def)

text \<open>
  Claim C8. Inserting never panics, for any sequence and any integer index: a negative
  index puts the item at position 0, an index at or beyond the length appends it, and
  any other index puts it at that position with the suffix moved one place to the
  right. \<^verbatim>\<open>InsertItem\<close> stores that sequence as the master sequence. Inserting at index 10
  into three items puts the item at index 3.
\<close>

theorem C8_InsertItem_total:
  "insertItemIntoSlice its it idx =
     Inr (Slice (if idx < 0 then it # elems its
                 else if len its \<le> idx then elems its @ [it]
                 else take (nat idx) (elems its) @ it # drop (nat idx) (elems its)))
   \<and> (\<exists>m'. InsertItem m idx it = Inr m' \<and>
         items m' =
           Slice (if idx < 0 then it # elems (items m)
                  else if len (items m) \<le> idx then elems (items m) @ [it]
                  else take (nat idx) (elems (items m)) @ it # drop (nat idx) (elems (items m))))
   \<and> insertItemIntoSlice (Slice [a, b, c]) it 10 = Inr (Slice [a, b, c, it])"
proof (intro conjI)
  show "insertItemIntoSlice its it idx =
     Inr (Slice (if idx < 0 then it # elems its
                 else if len its \<le> idx then elems its @ [it]
                 else take (nat idx) (elems its) @ it # drop (nat idx) (elems its)))"
    by (rule insertItemIntoSlice_result)
  show "\<exists>m'. InsertItem m idx it = Inr m' \<and>
         items m' =
           Slice (if idx < 0 then it # elems (items m)
                  else if len (items m) \<le> idx then elems (items m) @ [it]
                  else take (nat idx) (elems (items m)) @ it # drop (nat idx) (elems (items m)))"
    unfolding InsertItem_def insertItemIntoSlice_result [of "items m" it idx]
    by (simp add: updateKeybindings_fields)
  show "insertItemIntoSlice (Slice [a, b, c]) it 10 = Inr (Slice [a, b, c, it])"
    unfolding insertItemIntoSlice_result by (simp add: len_Slice)
qed

text \<open>
  Claim C7, at a negative index. \<^verbatim>\<open>RemoveItem\<close> with any negative index \<open>- 1 - n\<close>
  panics in the slice expression \<^verbatim>\<open>i[index:]\<close>, for every model, the empty store
  included: the only test before it is \<^verbatim>\<open>index >= len(i)\<close>. (At an index at or beyond
  the length the removal returns the sequence as it is, \<open>removeFromSlice_beyond\<close>.)
\<close>

theorem C7_RemoveItem_negative_index:
  "RemoveItem m (- 1 - int n) = Inl SliceBoundsOutOfRange"
  by (simp add: RemoveItem_def removeItemFromSlice_def removeFromSlice_negative)

lemma removeThenInsert_roundtrip:
  assumes "0 \<le> idx" and "idx < len its"
  shows "removeThenInsert its idx (elems its ! nat idx) = Inr its"
proof (cases its)
  case NilSlice
  with assms show ?thesis by (simp add: len_def)
next
  case (Slice xs)
  define k where "k = nat idx"
  from assms Slice have k: "k < length xs"
    by (simp add: k_def len_def)
  from assms have r: "removeItemFromSlice its idx = Inr (Slice (take k xs @ drop (Suc k) xs))"
    using Slice by (simp add: removeItemFromSlice_def removeFromSlice_valid k_def)
  from assms have nn: "\<not> idx < 0"
    by simp
  from k have whole: "take k xs @ xs ! k # drop (Suc k) xs = xs"
    by (simp add: id_take_nth_drop [symmetric])
  have "insertItemIntoSlice (Slice (take k xs @ drop (Suc k) xs)) (xs ! k) idx = Inr (Slice xs)"
  proof (cases "Suc k = length xs")
    case True
    with k assms have "len (Slice (take k xs @ drop (Suc k) xs)) \<le> idx"
      by (simp add: len_Slice k_def)
    with nn True whole show ?thesis
      unfolding insertItemIntoSlice_result by simp
  next
    case False
    with k assms have b: "\<not> len (Slice (take k xs @ drop (Suc k) xs)) \<le> idx"
      by (simp add: len_Slice k_def)
    from k have t: "take k (take k xs @ drop (Suc k) xs) = take k xs"
      by simp
    from k have d: "drop k (take k xs @ drop (Suc k) xs) = drop (Suc k) xs"
      by simp
    from nn b show ?thesis
      unfolding insertItemIntoSlice_result
      by (simp only: if_False elems.simps k_def [symmetric] t d whole)
  qed
  with Slice show ?thesis
    unfolding removeThenInsert_def r by (simp add: k_def)
qed

lemma removeThenInsert_beyond:
  assumes "len its \<le> idx"
  shows "removeItemFromSlice its idx = Inr its"
    and "removeThenInsert its idx it = Inr (Slice (elems its @ [it]))"
    and "removeThenInsert its idx it \<noteq> Inr its"
proof -
  show r: "removeItemFromSlice its idx = Inr its"
    using assms by (simp add: removeItemFromSlice_def removeFromSlice_beyond)
  from assms have "\<not> idx < 0"
    using len_nonneg [of its] by simp
  with assms show i: "removeThenInsert its idx it = Inr (Slice (elems its @ [it]))"
    unfolding removeThenInsert_def r insertItemIntoSlice_result by simp
  show "removeThenInsert its idx it \<noteq> Inr its"
    unfolding i by (cases its) simp_all
qed

text \<open>
  Claim C9, at a negative index. The removal is no no-op there: it panics, and so does
  the round trip. (At a valid index the round trip gives the sequence back,
  \<open>removeThenInsert_roundtrip\<close>; at an index at or beyond the length the removal is a
  no-op and the round trip appends the item, \<open>removeThenInsert_beyond\<close>.)
\<close>

theorem C9_roundtrip_negative_index:
  "removeItemFromSlice its (- 1 - int n) = Inl SliceBoundsOutOfRange
   \<and> removeThenInsert its (- 1 - int n) it = Inl SliceBoundsOutOfRange"
  by (simp add: removeThenInsert_def removeItemFromSlice_def removeFromSlice_negative)

section \<open>The viewport, the filter and the selection\<close>

lemma updateKeybindings_settings:
  "showTitle (updateKeybindings m) = showTitle m"
  "showFilter (updateKeybindings m) = showFilter m"
  "showStatusBar (updateKeybindings m) = showStatusBar m"
  "showHelp (updateKeybindings m) = showHelp m"
  "filteringEnabled (updateKeybindings m) = filteringEnabled m"
  "height (updateKeybindings m) = height m"
  "helpShowAll (updateKeybindings m) = helpShowAll m"
  "delegateHeight (updateKeybindings m) = delegateHeight m"
  "delegateSpacing (updateKeybindings m) = delegateSpacing m"
  by (simp_all add: updateKeybindings_def Let_def)

lemma max_go_max: "max_go a b = max a b"
  by (simp add: max_go_def max_def)

lemma min_go_min: "min_go a b = min a b"
  by (simp add: min_go_def min_def)

subsection \<open>The viewport\<close>

lemma wrap64_id: "- (2 ^ 63) \<le> x \<Longrightarrow> x < 2 ^ 63 \<Longrightarrow> wrap64 x = x"
  by (simp add: wrap64_def)

lemma wrap64_above:
  assumes "2 ^ 63 \<le> x" and "x < 2 ^ 63 + 2 ^ 64"
  shows "wrap64 x = x - 2 ^ 64"
proof -
  have "(x + 2 ^ 63) mod 2 ^ 64 = (x + 2 ^ 63 - 2 ^ 64) mod (2 ^ 64 :: int)"
    by (simp only: minus_mod_self2)
  also from assms have "\<dots> = x + 2 ^ 63 - 2 ^ 64"
    by (intro mod_pos_pos_trivial) simp_all
  finally show ?thesis
    by (simp add: wrap64_def)
qed

lemma wrap64_below:
  assumes "- (2 ^ 63) - 2 ^ 64 \<le> x" and "x < - (2 ^ 63)"
  shows "wrap64 x = x + 2 ^ 64"
proof -
  have "(x + 2 ^ 63) mod 2 ^ 64 = (x + 2 ^ 63 + 2 ^ 64) mod (2 ^ 64 :: int)"
    by (simp only: mod_add_self2)
  also from assms have "\<dots> = x + 2 ^ 63 + 2 ^ 64"
    by (intro mod_pos_pos_trivial) simp_all
  finally show ?thesis
    by (simp add: wrap64_def)
qed

lemma wrap64_range: "- (2 ^ 63) \<le> wrap64 x" "wrap64 x < 2 ^ 63"
proof -
  have "0 \<le> (x + 2 ^ 63) mod (2 ^ 64 :: int)" "(x + 2 ^ 63) mod (2 ^ 64 :: int) < 2 ^ 64"
    by simp_all
  then show "- (2 ^ 63) \<le> wrap64 x" "wrap64 x < 2 ^ 63"
    by (simp_all add: wrap64_def)
qed

lemma availSpace_range:
  assumes "availSpace c m = Inr space"
  shows "1 \<le> space" and "space < 2 ^ 63"
proof -
  from assms obtain x where "space = max 1 (wrap64 x)"
    by (auto simp: availSpace_def Let_def max_go_max split: if_splits)
  with wrap64_range [of x] show "1 \<le> space" and "space < 2 ^ 63"
    by simp_all
qed

lemma availSpace_defined:
  "itemHeight m \<noteq> 0 \<Longrightarrow> \<exists>space. availSpace c m = Inr space"
  by (simp add: availSpace_def Let_def)


lemma AvailableItems_viewport:
  "AvailableItems (m\<lparr>firstItemIndexInView := f\<rparr>) = AvailableItems m"
  "AvailableItems (m\<lparr>lastItemIndexInView := l\<rparr>) = AvailableItems m"
  by (simp_all add: AvailableItems_def)



lemma updateViewportBounds_unfold:
  assumes sp: "availSpace c m = Inr space" and i0: "0 \<le> index m"
    and cl: "cl = wrap64 (min_go (len (AvailableItems m))
                            (wrap64 (firstItemIndexInView m + space)) - 1)"
  shows "updateViewportBounds c m =
      (if firstItemIndexInView m \<le> index m \<and> index m \<le> cl then
         Inr (m\<lparr>lastItemIndexInView := cl\<rparr>)
       else if cl < index m then
         Inr (m\<lparr>firstItemIndexInView := max_go 0 (wrap64 (wrap64 (index m - space) + 1)),
                lastItemIndexInView := index m\<rparr>)
       else if firstItemIndexInView m > index m then
         Inr (m\<lparr>firstItemIndexInView := index m,
                lastItemIndexInView :=
                  wrap64 (wrap64 (index m + min_go (len (AvailableItems m)) space) - 1)\<rparr>)
       else Inr m)"
  using i0 unfolding updateViewportBounds_def Index_def Let_def sp cl by simp

text \<open>The three values of \<^verbatim>\<open>currentLast\<close>: without overflow of
  \<^verbatim>\<open>currentFirst + availSpace\<close>, with the sum exactly \<open>2^63\<close>, and beyond.\<close>

lemma currentLast_plain:
  assumes "- (2 ^ 63) \<le> f" and "1 \<le> space" and "f + space < 2 ^ 63" and "0 < L"
  shows "wrap64 (min_go L (wrap64 (f + space)) - 1) = min L (f + space) - 1"
proof -
  from assms have w: "wrap64 (f + space) = f + space"
    by (intro wrap64_id) simp_all
  from assms have "wrap64 (min L (f + space) - 1) = min L (f + space) - 1"
    by (intro wrap64_id) (simp_all add: min_def)
  with w show ?thesis
    by (simp add: min_go_min)
qed

lemma currentLast_edge:
  assumes "f + space = 2 ^ 63" and "0 < L"
  shows "wrap64 (min_go L (wrap64 (f + space)) - 1) = 2 ^ 63 - 1"
proof -
  have w: "wrap64 (f + space) = - (2 ^ 63)"
    unfolding assms(1) by (simp add: wrap64_def)
  have "wrap64 (- (2 ^ 63) - 1) = 2 ^ 63 - 1"
    by (simp add: wrap64_def)
  with w assms(2) show ?thesis
    by (simp add: min_go_def)
qed

lemma currentLast_wrapped:
  assumes "2 ^ 63 < f + space" and "f < 2 ^ 63" and "space < 2 ^ 63" and "0 < L"
  shows "wrap64 (min_go L (wrap64 (f + space)) - 1) < 0"
proof -
  from assms have w: "wrap64 (f + space) = f + space - 2 ^ 64"
    by (intro wrap64_above) simp_all
  from assms have "wrap64 (f + space - 2 ^ 64 - 1) = f + space - 2 ^ 64 - 1"
    by (intro wrap64_id) simp_all
  with w assms show ?thesis
    by (simp add: min_go_def)
qed

lemma scroll_down_first:
  assumes "0 \<le> idx" and "idx < 2 ^ 63" and "1 \<le> space" and "space < 2 ^ 63"
  shows "max_go 0 (wrap64 (wrap64 (idx - space) + 1)) = max 0 (idx - space + 1)"
proof -
  from assms have "wrap64 (idx - space) = idx - space"
    by (intro wrap64_id) simp_all
  moreover from assms have "wrap64 (idx - space + 1) = idx - space + 1"
    by (intro wrap64_id) simp_all
  ultimately show ?thesis
    by (simp add: max_go_max)
qed

lemma scroll_up_last:
  assumes "0 \<le> idx" and "1 \<le> space" and "0 < L" and "idx + space < 2 ^ 63"
  shows "wrap64 (wrap64 (idx + min_go L space) - 1) = idx + min L space - 1"
proof -
  from assms have "wrap64 (idx + min L space) = idx + min L space"
    by (intro wrap64_id) (simp_all add: min_def)
  moreover from assms have "wrap64 (idx + min L space - 1) = idx + min L space - 1"
    by (intro wrap64_id) (simp_all add: min_def)
  ultimately show ?thesis
    by (simp add: min_go_min)
qed

text \<open>
  One pass over a selection in range, for any stored first index that is a value of
  \<^verbatim>\<open>int\<close>: the selection is inside the new window and the window is no longer than the
  capacity; the first index is not negative unless a negative stored one is kept; the
  last index is below the length unless the pass scrolls up too close to the end, or
  the stored first index is at most the selection and \<^verbatim>\<open>currentFirst + availSpace\<close> is
  exactly \<open>2^63\<close> (the sum wraps to the least value and \<^verbatim>\<open>currentLast\<close> wraps back to the
  greatest).
\<close>

lemma updateViewportBounds_bounds:
  assumes sp: "availSpace c m = Inr space"
    and i0: "0 \<le> index m" and i1: "index m < len (AvailableItems m)"
    and gi: "goInt (index m)" and gf: "goInt (firstItemIndexInView m)"
  shows "\<exists>m'. updateViewportBounds c m = Inr m' \<and>
           index m' = index m \<and> AvailableItems m' = AvailableItems m \<and>
           firstItemIndexInView m' \<le> index m' \<and> index m' \<le> lastItemIndexInView m' \<and>
           lastItemIndexInView m' - firstItemIndexInView m' + 1 \<le> space \<and>
           (0 \<le> firstItemIndexInView m \<or> firstItemIndexInView m + space \<le> index m
              \<longrightarrow> 0 \<le> firstItemIndexInView m') \<and>
           ((firstItemIndexInView m \<le> index m \<and> firstItemIndexInView m + space \<noteq> 2 ^ 63)
              \<or> 2 ^ 63 < firstItemIndexInView m + space
              \<or> index m + space \<le> len (AvailableItems m) \<or> index m = 0
              \<longrightarrow> lastItemIndexInView m' < len (AvailableItems m'))"
proof -
  define f where "f = firstItemIndexInView m"
  define idx where "idx = index m"
  define L where "L = len (AvailableItems m)"
  define cl where "cl = wrap64 (min_go L (wrap64 (f + space)) - 1)"
  note names = f_def [symmetric] idx_def [symmetric] L_def [symmetric]
  from sp have s1: "1 \<le> space" and s2: "space < 2 ^ 63"
    by (rule availSpace_range)+
  from gi gf have r: "idx < 2 ^ 63" "- (2 ^ 63) \<le> f" "f < 2 ^ 63"
    by (simp_all add: goInt_def f_def idx_def)
  from i0 i1 have i: "0 \<le> idx" "idx < L" "0 < L"
    by (simp_all add: idx_def L_def)
  have unf: "updateViewportBounds c m =
      (if f \<le> idx \<and> idx \<le> cl then Inr (m\<lparr>lastItemIndexInView := cl\<rparr>)
       else if cl < idx then
         Inr (m\<lparr>firstItemIndexInView := max 0 (idx - space + 1), lastItemIndexInView := idx\<rparr>)
       else if f > idx then
         Inr (m\<lparr>firstItemIndexInView := idx,
                lastItemIndexInView := wrap64 (wrap64 (idx + min_go L space) - 1)\<rparr>)
       else Inr m)"
    using updateViewportBounds_unfold [OF sp i0, of cl]
      scroll_down_first [OF i(1) r(1) s1 s2]
    by (simp add: cl_def f_def idx_def L_def)
  have down: "\<exists>m'. updateViewportBounds c m = Inr m' \<and>
           index m' = idx \<and> AvailableItems m' = AvailableItems m \<and>
           firstItemIndexInView m' \<le> idx \<and> idx \<le> lastItemIndexInView m' \<and>
           lastItemIndexInView m' - firstItemIndexInView m' + 1 \<le> space \<and>
           0 \<le> firstItemIndexInView m' \<and> lastItemIndexInView m' < L"
    if "cl < idx"
  proof -
    from that have "updateViewportBounds c m =
        Inr (m\<lparr>firstItemIndexInView := max 0 (idx - space + 1), lastItemIndexInView := idx\<rparr>)"
      by (simp add: unf)
    with i s1 show ?thesis
      by (auto simp: AvailableItems_viewport idx_def)
  qed
  have up: "\<exists>m'. updateViewportBounds c m = Inr m' \<and>
           index m' = idx \<and> AvailableItems m' = AvailableItems m \<and>
           firstItemIndexInView m' \<le> idx \<and> idx \<le> lastItemIndexInView m' \<and>
           lastItemIndexInView m' - firstItemIndexInView m' + 1 \<le> space \<and>
           0 \<le> firstItemIndexInView m' \<and>
           (idx + space \<le> L \<or> idx = 0 \<longrightarrow> lastItemIndexInView m' < L)"
    if "idx < f" and "idx \<le> cl" and "f + space \<le> 2 ^ 63"
  proof -
    from that have "idx + space < 2 ^ 63"
      by simp
    with i s1 have "wrap64 (wrap64 (idx + min_go L space) - 1) = idx + min L space - 1"
      by (intro scroll_up_last) simp_all
    with that have "updateViewportBounds c m =
        Inr (m\<lparr>firstItemIndexInView := idx, lastItemIndexInView := idx + min L space - 1\<rparr>)"
      by (simp add: unf)
    with i s1 show ?thesis
      by (auto simp: AvailableItems_viewport idx_def)
  qed
  consider (plain) "f + space < 2 ^ 63" | (edge) "f + space = 2 ^ 63" | (wrapped) "2 ^ 63 < f + space"
    by linarith
  then have "\<exists>m'. updateViewportBounds c m = Inr m' \<and>
           index m' = idx \<and> AvailableItems m' = AvailableItems m \<and>
           firstItemIndexInView m' \<le> idx \<and> idx \<le> lastItemIndexInView m' \<and>
           lastItemIndexInView m' - firstItemIndexInView m' + 1 \<le> space \<and>
           (0 \<le> f \<or> f + space \<le> idx \<longrightarrow> 0 \<le> firstItemIndexInView m') \<and>
           ((f \<le> idx \<and> f + space \<noteq> 2 ^ 63) \<or> 2 ^ 63 < f + space
              \<or> idx + space \<le> L \<or> idx = 0
              \<longrightarrow> lastItemIndexInView m' < L)"
  proof cases
    case plain
    with r s1 i have c: "cl = min L (f + space) - 1"
      unfolding cl_def by (intro currentLast_plain) simp_all
    consider (inside) "f \<le> idx" "idx \<le> cl" | (below) "cl < idx" | (above) "idx < f" "idx \<le> cl"
      by linarith
    then show ?thesis
    proof cases
      case inside
      then have "updateViewportBounds c m = Inr (m\<lparr>lastItemIndexInView := cl\<rparr>)"
        by (simp add: unf)
      with inside i s1 show ?thesis
        by (auto simp: AvailableItems_viewport idx_def f_def c)
    next
      case below
      from down [OF below] show ?thesis
        by blast
    next
      case above
      with plain have "\<exists>m'. updateViewportBounds c m = Inr m' \<and>
           index m' = idx \<and> AvailableItems m' = AvailableItems m \<and>
           firstItemIndexInView m' \<le> idx \<and> idx \<le> lastItemIndexInView m' \<and>
           lastItemIndexInView m' - firstItemIndexInView m' + 1 \<le> space \<and>
           0 \<le> firstItemIndexInView m' \<and>
           (idx + space \<le> L \<or> idx = 0 \<longrightarrow> lastItemIndexInView m' < L)"
        by (intro up) simp_all
      with above plain show ?thesis
        by auto
    qed
  next
    case edge
    with i have c: "cl = 2 ^ 63 - 1"
      unfolding cl_def by (intro currentLast_edge) simp_all
    show ?thesis
    proof (cases "f \<le> idx")
      case True
      with c r have "updateViewportBounds c m = Inr (m\<lparr>lastItemIndexInView := cl\<rparr>)"
        by (simp add: unf)
      with True edge i s1 s2 r show ?thesis
        by (auto simp: AvailableItems_viewport idx_def f_def c)
    next
      case False
      with c r edge have "\<exists>m'. updateViewportBounds c m = Inr m' \<and>
           index m' = idx \<and> AvailableItems m' = AvailableItems m \<and>
           firstItemIndexInView m' \<le> idx \<and> idx \<le> lastItemIndexInView m' \<and>
           lastItemIndexInView m' - firstItemIndexInView m' + 1 \<le> space \<and>
           0 \<le> firstItemIndexInView m' \<and>
           (idx + space \<le> L \<or> idx = 0 \<longrightarrow> lastItemIndexInView m' < L)"
        by (intro up) simp_all
      with False edge show ?thesis
        by auto
    qed
  next
    case wrapped
    with r s2 i have "cl < 0"
      unfolding cl_def by (intro currentLast_wrapped) simp_all
    with i have "cl < idx"
      by simp
    from down [OF this] show ?thesis
      by blast
  qed
  then obtain m' where "updateViewportBounds c m = Inr m'"
    and "index m' = idx" and "AvailableItems m' = AvailableItems m"
    and "firstItemIndexInView m' \<le> idx" and "idx \<le> lastItemIndexInView m'"
    and "lastItemIndexInView m' - firstItemIndexInView m' + 1 \<le> space"
    and "0 \<le> f \<or> f + space \<le> idx \<longrightarrow> 0 \<le> firstItemIndexInView m'"
    and "(f \<le> idx \<and> f + space \<noteq> 2 ^ 63) \<or> 2 ^ 63 < f + space
           \<or> idx + space \<le> L \<or> idx = 0
           \<longrightarrow> lastItemIndexInView m' < L"
    by blast
  then show ?thesis
    unfolding f_def idx_def L_def by (intro exI [of _ m']) simp
qed

text \<open>
  With the stored first index 0 every bound of the window holds. That is the stored
  value in every state the package makes: \<^verbatim>\<open>New\<close> leaves it 0, no other method writes it
  (\<open>firstItemIndexInView_kept\<close>, \<open>firstItemIndexInView_mutation\<close> below), and
  \<^verbatim>\<open>updateViewportBounds\<close> is only called by \<^verbatim>\<open>populatedView\<close>, on its own copy of the
  model.
\<close>

lemma updateViewportBounds_first_zero:
  assumes "0 \<le> index m" and "index m < len (AvailableItems m)" and "goInt (index m)"
    and "firstItemIndexInView m = 0" and "itemHeight m \<noteq> 0"
  shows "\<exists>space m'. availSpace c m = Inr space \<and> updateViewportBounds c m = Inr m' \<and>
           firstItemIndexInView m' \<le> index m \<and> index m \<le> lastItemIndexInView m' \<and>
           lastItemIndexInView m' - firstItemIndexInView m' + 1 \<le> space \<and>
           0 \<le> firstItemIndexInView m' \<and> lastItemIndexInView m' < len (AvailableItems m)"
proof -
  from assms(5) obtain space where sp: "availSpace c m = Inr space"
    using availSpace_defined by blast
  from sp have "space < 2 ^ 63"
    by (rule availSpace_range)
  with assms(4) have ne: "firstItemIndexInView m + space \<noteq> 2 ^ 63"
    by simp
  from assms(4) have "goInt (firstItemIndexInView m)"
    by (simp add: goInt_def)
  from updateViewportBounds_bounds [OF sp assms(1,2,3) this] assms(1,4) ne sp
  show ?thesis
    by auto
qed






lemma sampleView_fields:
  "index (sampleView its h i f) = i"
  "firstItemIndexInView (sampleView its h i f) = f"
  "AvailableItems (sampleView its h i f) = its"
  "itemHeight (sampleView its h i f) = 2"
  by (simp_all add: sampleView_def sampleModel_def New_def AvailableItems_def itemHeight_def
      updateKeybindings_fields updateKeybindings_settings wrap64_def)

lemma availSpace_selection:
  "availSpace c (m\<lparr>index := i, firstItemIndexInView := f, lastItemIndexInView := l\<rparr>) =
     availSpace c m"
  by (simp add: availSpace_def itemHeight_def Let_def)

lemma sampleModel_availSpace_any:
  "availSpace sampleChrome (sampleModel its h) =
     Inr (max_go 1 (wrap64 (wrap64 (wrap64 (wrap64 (h - 2) - 2) - 2) sdiv 2)))"
  by (simp add: availSpace_def Let_def itemHeight_def sampleModel_def sampleChrome_def New_def
      updateKeybindings_settings wrap64_id)

lemma sampleModel_availSpace:
  "availSpace sampleChrome (sampleModel its 10) = Inr 2"
  "availSpace sampleChrome (sampleModel its 12) = Inr 3"
  "availSpace sampleChrome (sampleModel its (- (2 ^ 63))) = Inr (2 ^ 62 - 3)"
  unfolding sampleModel_availSpace_any
  by (simp_all add: wrap64_def max_go_def signed_divide_int_def)

lemma sampleView_availSpace:
  "availSpace sampleChrome (sampleView its 10 i f) = Inr 2"
  "availSpace sampleChrome (sampleView its 12 i f) = Inr 3"
  "availSpace sampleChrome (sampleView its (- (2 ^ 63)) i f) = Inr (2 ^ 62 - 3)"
  by (simp_all only: sampleView_def availSpace_selection sampleModel_availSpace)


text \<open>
  A height at the least value of \<^verbatim>\<open>int\<close>: subtracting the chrome wraps around to a huge
  capacity, and the window over five items is 0 to 4.
\<close>

lemma sampleView_wrapped_height:
  "updateViewportBounds sampleChrome (sampleView (Slice [Some ''A'', Some ''B'', Some ''C'', Some ''D'', Some ''E'']) (- (2 ^ 63)) 4 0)
     = Inr ((sampleView (Slice [Some ''A'', Some ''B'', Some ''C'', Some ''D'', Some ''E'']) (- (2 ^ 63)) 4 0)\<lparr>lastItemIndexInView := 4\<rparr>)"
  unfolding updateViewportBounds_def sampleView_availSpace
  by (simp add: Index_def Let_def sampleView_fields min_go_def max_go_def wrap64_def len_Slice)





text \<open>
  The stored first index: 0 in a new model, and kept by every method modelled here but
  \<^verbatim>\<open>updateViewportBounds\<close>.
\<close>

lemma firstItemIndexInView_New:
  "firstItemIndexInView (New keymap dh ds dhelp its h) = 0"
  by (simp add: New_def updateKeybindings_fields)

lemma firstItemIndexInView_kept:
  "firstItemIndexInView (Select m i) = firstItemIndexInView m"
  "firstItemIndexInView (CursorUp m) = firstItemIndexInView m"
  "firstItemIndexInView (CursorDown m) = firstItemIndexInView m"
  "firstItemIndexInView (ResetSelected m) = firstItemIndexInView m"
  "firstItemIndexInView (resetFiltering m) = firstItemIndexInView m"
  "firstItemIndexInView (hideStatusMessage m) = firstItemIndexInView m"
  "firstItemIndexInView (handleFiltering ext m msg) = firstItemIndexInView m"
  by (simp_all add: Select_def CursorUp_def CursorDown_def ResetSelected_def resetFiltering_def
      hideStatusMessage_def handleFiltering_def updateKeybindings_fields Let_def
      split: Msg.splits)

lemma firstItemIndexInView_mutation:
  "InsertItem m i it = Inr m' \<Longrightarrow> firstItemIndexInView m' = firstItemIndexInView m"
  "RemoveItem m i = Inr m' \<Longrightarrow> firstItemIndexInView m' = firstItemIndexInView m"
  "MoveItemUp m i = Inr m' \<Longrightarrow> firstItemIndexInView m' = firstItemIndexInView m"
  "MoveItemDown m i = Inr m' \<Longrightarrow> firstItemIndexInView m' = firstItemIndexInView m"
  by (auto simp: InsertItem_def RemoveItem_def MoveItemUp_def MoveItemDown_def Let_def
      resetFiltering_def updateKeybindings_fields Select_def CursorUp_def CursorDown_def
      split: sum.splits if_splits)

lemma resetFiltering_active:
  assumes "filterState m \<noteq> Unfiltered"
  shows "filterState (resetFiltering m) = Unfiltered"
    and "tiValue (FilterInput (resetFiltering m)) = []"
    and "filteredItems (resetFiltering m) = NilSlice"
    and "items (resetFiltering m) = items m"
    and "index (resetFiltering m) = index m"
  using assms by (simp_all add: resetFiltering_def updateKeybindings_fields)

lemma len_items_of: "len (items_of f) = len f"
  by (simp add: items_of_def len_def)

text \<open>
  Claim C4. A model in the \<^verbatim>\<open>Filtering\<close> state receives a key message that is an accept
  request (it matches \<^verbatim>\<open>AcceptWhileFiltering\<close>, and neither \<^verbatim>\<open>ForceQuit\<close> nor
  \<^verbatim>\<open>CancelWhileFiltering\<close>, which are tested before it), and the text input leaves its
  value alone on that key. Then \<^verbatim>\<open>Update\<close> returns, and: with an empty master sequence
  the filter state stays \<^verbatim>\<open>Filtering\<close>, and the sequences, the selection and the query
  are unchanged; else with an empty filtered sequence the state is \<^verbatim>\<open>Unfiltered\<close>, the
  query empty and the filtered sequence cleared; else with an empty query the same;
  otherwise the state is \<^verbatim>\<open>FilterApplied\<close>, with the filtered sequence and the query kept.
\<close>

theorem C4_accept_while_filtering:
  assumes "filterState m = Filtering"
    and "\<not> keyMatches m ks ForceQuitKey"
    and "\<not> keyMatches m ks CancelWhileFilteringKey"
    and "keyMatches m ks AcceptWhileFilteringKey"
    and "\<forall>ti. tiValue (inputUpdate ext (KeyMsg ks) ti) = tiValue ti"
  shows "\<exists>m'. Update ext m (KeyMsg ks) = Inr m' \<and>
     (if len (items m) = 0 then
        filterState m' = Filtering \<and> items m' = items m \<and>
        filteredItems m' = filteredItems m \<and> index m' = index m \<and>
        tiValue (FilterInput m') = tiValue (FilterInput m)
      else if len (filteredItems m) = 0 then
        filterState m' = Unfiltered \<and> tiValue (FilterInput m') = [] \<and>
        filteredItems m' = NilSlice
      else if tiValue (FilterInput m) = [] then
        filterState m' = Unfiltered \<and> tiValue (FilterInput m') = [] \<and>
        filteredItems m' = NilSlice
      else
        filterState m' = FilterApplied \<and> filteredItems m' = filteredItems m \<and>
        tiValue (FilterInput m') = tiValue (FilterInput m))"
proof -
  define h0 where "h0 = hideStatusMessage m"
  define a where "a = updateKeybindings
     (h0\<lparr>FilterInput := (FilterInput h0)\<lparr>tiFocus := False\<rparr>, filterState := FilterApplied\<rparr>)"
  define m1 where "m1 =
     (if len (items h0) = 0 then h0
      else if len (AvailableItems h0) = 0 then resetFiltering h0
      else if tiValue (FilterInput a) = [] then resetFiltering a else a)"
  have h0: "filterState h0 = Filtering" "items h0 = items m" "filteredItems h0 = filteredItems m"
    "index h0 = index m" "FilterInput h0 = FilterInput m"
    using assms(1) by (simp_all add: h0_def hideStatusMessage_def)
  have av: "len (AvailableItems h0) = len (filteredItems m)"
    using h0 by (simp add: AvailableItems_def len_items_of)
  have a: "filterState a = FilterApplied" "items a = items m" "filteredItems a = filteredItems m"
    "index a = index m" "tiValue (FilterInput a) = tiValue (FilterInput m)"
    using h0 by (simp_all add: a_def updateKeybindings_fields)
  have unchanged: "filterState (handleFiltering ext m (KeyMsg ks)) = filterState m1"
    "items (handleFiltering ext m (KeyMsg ks)) = items m1"
    "filteredItems (handleFiltering ext m (KeyMsg ks)) = filteredItems m1"
    "index (handleFiltering ext m (KeyMsg ks)) = index m1"
    "tiValue (FilterInput (handleFiltering ext m (KeyMsg ks))) = tiValue (FilterInput m1)"
    using assms(3,4,5)
    by (simp_all add: handleFiltering_def Let_def m1_def h0_def [symmetric] a_def [symmetric])
  have ra: "filterState (resetFiltering a) = Unfiltered"
    "tiValue (FilterInput (resetFiltering a)) = []" "filteredItems (resetFiltering a) = NilSlice"
    using a(1) by (simp_all add: resetFiltering_active)
  have rh: "filterState (resetFiltering h0) = Unfiltered"
    "tiValue (FilterInput (resetFiltering h0)) = []" "filteredItems (resetFiltering h0) = NilSlice"
    using h0(1) by (simp_all add: resetFiltering_active)
  have "Update ext m (KeyMsg ks) = Inr (handleFiltering ext m (KeyMsg ks))"
    using assms(1,2) by (simp add: Update_def)
  then show ?thesis
    by (simp add: unchanged m1_def h0 av a ra rh)
qed

lemma sampleModel_items:
  "items (sampleModel its h) = its"
  by (simp add: sampleModel_def New_def updateKeybindings_fields)

lemma sampleFiltering_fields:
  "filterState (sampleFiltering its fs q) = Filtering"
  "items (sampleFiltering its fs q) = its"
  "filteredItems (sampleFiltering its fs q) = fs"
  "tiValue (FilterInput (sampleFiltering its fs q)) = q"
  "keyMatches (sampleFiltering its fs q) ks b = (b \<in> set ks)"
  by (simp_all add: sampleFiltering_def keyMatches_def sampleModel_items)

text \<open>
  The four cases of claim C4 at sample states: one match for the query \<open>a\<close>; no match
  for \<open>xyz\<close>; an empty query with every item listed; an empty master sequence.
\<close>

theorem C4_accept_while_filtering_witness:
  "(\<exists>m'. Update sampleCollaborators
            (sampleFiltering (Slice [Some ''A'', Some ''B''])
               (Slice [\<lparr>item = Some ''A'', matches = NilSlice\<rparr>]) ''a'')
            (KeyMsg [AcceptWhileFilteringKey]) = Inr m' \<and>
          filterState m' = FilterApplied \<and>
          filteredItems m' = Slice [\<lparr>item = Some ''A'', matches = NilSlice\<rparr>])
   \<and> (\<exists>m'. Update sampleCollaborators
            (sampleFiltering (Slice [Some ''A'', Some ''B'']) (Slice []) ''xyz'')
            (KeyMsg [AcceptWhileFilteringKey]) = Inr m' \<and>
          filterState m' = Unfiltered \<and> tiValue (FilterInput m') = [] \<and>
          filteredItems m' = NilSlice)
   \<and> (\<exists>m'. Update sampleCollaborators
            (sampleFiltering (Slice [Some ''A'', Some ''B''])
               (Slice [\<lparr>item = Some ''A'', matches = NilSlice\<rparr>,
                       \<lparr>item = Some ''B'', matches = NilSlice\<rparr>]) [])
            (KeyMsg [AcceptWhileFilteringKey]) = Inr m' \<and>
          filterState m' = Unfiltered \<and> tiValue (FilterInput m') = [] \<and>
          filteredItems m' = NilSlice)
   \<and> (\<exists>m'. Update sampleCollaborators
            (sampleFiltering (Slice []) (Slice []) ''a'')
            (KeyMsg [AcceptWhileFilteringKey]) = Inr m' \<and>
          filterState m' = Filtering \<and> tiValue (FilterInput m') = ''a'')"
proof -
  have ext: "\<forall>ti. tiValue (inputUpdate sampleCollaborators (KeyMsg [AcceptWhileFilteringKey]) ti)
               = tiValue ti"
    by (simp add: sampleCollaborators_def)
  have hyp: "filterState (sampleFiltering its fs q) = Filtering"
    "\<not> keyMatches (sampleFiltering its fs q) [AcceptWhileFilteringKey] ForceQuitKey"
    "\<not> keyMatches (sampleFiltering its fs q) [AcceptWhileFilteringKey] CancelWhileFilteringKey"
    "keyMatches (sampleFiltering its fs q) [AcceptWhileFilteringKey] AcceptWhileFilteringKey"
    for its fs q
    by (simp_all add: sampleFiltering_fields)
  note step = C4_accept_while_filtering [OF hyp ext]
  have 1: "\<exists>m'. Update sampleCollaborators
            (sampleFiltering (Slice [Some ''A'', Some ''B''])
               (Slice [\<lparr>item = Some ''A'', matches = NilSlice\<rparr>]) ''a'')
            (KeyMsg [AcceptWhileFilteringKey]) = Inr m' \<and>
          filterState m' = FilterApplied \<and>
          filteredItems m' = Slice [\<lparr>item = Some ''A'', matches = NilSlice\<rparr>]"
    using step [of "Slice [Some ''A'', Some ''B'']"
        "Slice [\<lparr>item = Some ''A'', matches = NilSlice\<rparr>]" "''a''"]
    by (auto simp: sampleFiltering_fields len_Slice)
  have 2: "\<exists>m'. Update sampleCollaborators
            (sampleFiltering (Slice [Some ''A'', Some ''B'']) (Slice []) ''xyz'')
            (KeyMsg [AcceptWhileFilteringKey]) = Inr m' \<and>
          filterState m' = Unfiltered \<and> tiValue (FilterInput m') = [] \<and>
          filteredItems m' = NilSlice"
    using step [of "Slice [Some ''A'', Some ''B'']" "Slice []" "''xyz''"]
    by (auto simp: sampleFiltering_fields len_Slice)
  have 3: "\<exists>m'. Update sampleCollaborators
            (sampleFiltering (Slice [Some ''A'', Some ''B''])
               (Slice [\<lparr>item = Some ''A'', matches = NilSlice\<rparr>,
                       \<lparr>item = Some ''B'', matches = NilSlice\<rparr>]) [])
            (KeyMsg [AcceptWhileFilteringKey]) = Inr m' \<and>
          filterState m' = Unfiltered \<and> tiValue (FilterInput m') = [] \<and>
          filteredItems m' = NilSlice"
    using step [of "Slice [Some ''A'', Some ''B'']"
        "Slice [\<lparr>item = Some ''A'', matches = NilSlice\<rparr>,
                \<lparr>item = Some ''B'', matches = NilSlice\<rparr>]" "[]"]
    by (auto simp: sampleFiltering_fields len_Slice)
  have 4: "\<exists>m'. Update sampleCollaborators
            (sampleFiltering (Slice []) (Slice []) ''a'')
            (KeyMsg [AcceptWhileFilteringKey]) = Inr m' \<and>
          filterState m' = Filtering \<and> tiValue (FilterInput m') = ''a''"
    using step [of "Slice []" "Slice []" "''a''"]
    by (auto simp: sampleFiltering_fields len_Slice)
  from 1 2 3 4 show ?thesis
    by blast
qed

lemma InsertItem_index:
  "InsertItem m idx it = Inr m' \<Longrightarrow> index m' = index m \<and> filterState m' = filterState m"
  by (auto simp: InsertItem_def insertItemIntoSlice_result updateKeybindings_fields)

lemma RemoveItem_index:
  "RemoveItem m idx = Inr m' \<Longrightarrow> index m' = index m"
  by (auto simp: RemoveItem_def Let_def resetFiltering_def updateKeybindings_fields
      split: sum.splits if_splits)

lemma sampleModel_fields:
  "items (sampleModel its h) = its"
  "index (sampleModel its h) = (if len its > 0 then 0 else -1)"
  "filterState (sampleModel its h) = Unfiltered"
  "AvailableItems (sampleModel its h) = its"
  by (simp_all add: sampleModel_def New_def updateKeybindings_fields AvailableItems_def)

lemma RemoveItem_Unfiltered:
  "filterState m = Unfiltered \<Longrightarrow>
     RemoveItem m idx =
       (case removeItemFromSlice (items m) idx of
          Inl e \<Rightarrow> Inl e
        | Inr its \<Rightarrow> Inr (m\<lparr>items := its\<rparr>))"
  by (simp add: RemoveItem_def Let_def split: sum.splits)

text \<open>
  Claim C1, at two states. Removing the only item of a new one-item model leaves the
  index at 0 over an empty available sequence; inserting into a new empty model leaves
  the index at \<open>-1\<close> over one available item. Both start states have their selection in
  range; \<^verbatim>\<open>InsertItem\<close> and \<^verbatim>\<open>RemoveItem\<close> never write the index (\<open>InsertItem_index\<close>,
  \<open>RemoveItem_index\<close>).
\<close>

theorem C1_selection_not_reclamped:
  "selectionInRange (sampleModel (Slice [Some ''A'']) 10)
   \<and> (case RemoveItem (sampleModel (Slice [Some ''A'']) 10) 0 of
         Inl e \<Rightarrow> False
       | Inr m' \<Rightarrow> index m' = 0 \<and> AvailableItems m' = Slice [] \<and> \<not> selectionInRange m')
   \<and> selectionInRange (sampleModel NilSlice 10)
   \<and> (case InsertItem (sampleModel NilSlice 10) 0 (Some ''A'') of
         Inl e \<Rightarrow> False
       | Inr m' \<Rightarrow> index m' = - 1 \<and> AvailableItems m' = Slice [Some ''A''] \<and>
                   \<not> selectionInRange m')"
proof -
  have r: "removeItemFromSlice (Slice [Some ''A'']) 0 = Inr (Slice [])"
    using removeFromSlice_valid [of 0 "Slice [Some ''A'']" None]
    by (simp add: removeItemFromSlice_def len_Slice)
  have 1: "selectionInRange (sampleModel (Slice [Some ''A'']) 10)"
    by (simp add: selectionInRange_def sampleModel_fields len_Slice)
  have 2: "RemoveItem (sampleModel (Slice [Some ''A'']) 10) 0 =
             Inr ((sampleModel (Slice [Some ''A'']) 10)\<lparr>items := Slice []\<rparr>)"
    by (simp add: RemoveItem_Unfiltered sampleModel_fields r)
  have 3: "selectionInRange (sampleModel NilSlice 10)"
    by (simp add: selectionInRange_def sampleModel_fields len_def)
  have 4: "InsertItem (sampleModel NilSlice 10) 0 (Some ''A'') =
             Inr (updateKeybindings ((sampleModel NilSlice 10)\<lparr>items := Slice [Some ''A'']\<rparr>))"
    by (simp add: InsertItem_def insertItemIntoSlice_result sampleModel_fields)
  show ?thesis
    unfolding 2 4
    by (simp add: 1 3 selectionInRange_def AvailableItems_def updateKeybindings_fields
        sampleModel_fields len_def)
qed

end
